theory Spec2Isabelle
  imports Main "HOL-Library.AList"
begin

section \<open>Values, properties and objects of the host language\<close>

text \<open>
  The repository is one TypeScript function, \<^verbatim>\<open>TaggedError\<close> (src/index.ts), which
  returns a class extending the built-in \<^verbatim>\<open>Error\<close>. What the function does is spelled in
  terms of the host's object model: own properties with attributes, a prototype chain,
  \<^verbatim>\<open>Object.assign\<close>, \<^verbatim>\<open>Object.setPrototypeOf\<close>, property assignment. This section models
  the part of that object model the constructor touches. The built-in prototypes are
  taken as the language standard ships them (nobody froze or extended \<^verbatim>\<open>Error.prototype\<close>
  or \<^verbatim>\<open>Object.prototype\<close>).
\<close>

text \<open>
  A class is identified by the moment of its creation: every evaluation of a class
  expression makes a new constructor with a new prototype object. \<open>Variant n tag\<close> is the
  class returned by the \<open>n\<close>-th allocation, closed over \<open>tag\<close>; \<open>Subclass n c\<close> is a
  declaration \<^verbatim>\<open>class X extends c {}\<close> with no constructor of its own, as in the
  repository's tests and README.
\<close>

datatype vclass = Variant nat string | Subclass nat vclass

text \<open>
  Values, and the objects that can stand on a prototype chain. A value is a primitive or
  an object; an object is \<^verbatim>\<open>Object.prototype\<close>, \<^verbatim>\<open>Error.prototype\<close>, the prototype object
  of a class, or an object of the caller's, given by its own properties and its own
  prototype (\<open>NullPrototype\<close> is the end of a chain, the prototype \<^verbatim>\<open>null\<close>).

  A property of a caller's object is a data property (its value, and whether it is
  writable: a frozen object's are not) or an accessor. An accessor runs code of the
  caller's; the ones covered here are those whose getter, if present, returns a fixed
  value and whose setter, if present, does nothing. Payload values are only copied by
  the code; numbers are kept as integers.
\<close>

datatype jsval = VUndefined | VNull | VBool bool | VNum int | VStr string | VObj proto
and proto =
    NullPrototype
  | ObjectPrototype
  | ErrorPrototype
  | ClassPrototype vclass
  | PlainObject "(string \<times> slot) list" proto
and slot = Data jsval bool | Accessor "jsval option" bool

text \<open>An own data property of an instance: its value and the three attributes.\<close>

record descriptor =
  pvalue :: jsval
  writable :: bool
  enumerable :: bool
  configurable :: bool

text \<open>
  An instance under construction: its prototype link and its own properties. The list
  is kept in the order of creation (keys are unique; \<^const>\<open>AList.update\<close> replaces in
  place or appends); it is not the order in which the host enumerates keys, and nothing
  below depends on it.
\<close>

record obj =
  prototype_of :: proto
  own :: "(string \<times> descriptor) list"

datatype error = TypeError

text \<open>The allocation state: the stamp the next class expression receives.\<close>

record realm =
  next_id :: nat

text \<open>
  What the host contributes to one construction. The language standard makes
  \<^verbatim>\<open>new Error(msg)\<close> create the own property \<^verbatim>\<open>message\<close> and nothing else; engines add
  diagnostic fields of their own (the trace, as \<^verbatim>\<open>stack\<close>, where the engine keeps it on
  the instance; line and column numbers; a source URL). \<open>base_fields\<close> lists them for
  one construction: key, value and whether the field is enumerable. They are writable and
  configurable on every engine, or behave so (an engine that keeps \<^verbatim>\<open>stack\<close> behind an
  internal getter and setter stores what is assigned and returns it). \<open>legacy_proto\<close>
  says whether the base constructor ignores \<^verbatim>\<open>new.target\<close> (a down-levelled ES5 build,
  where \<^verbatim>\<open>Error.call(this, ...)\<close> yields an object whose prototype is \<^verbatim>\<open>Error.prototype\<close>).
\<close>

record host =
  base_fields :: "(string \<times> jsval \<times> bool) list"
  legacy_proto :: bool

text \<open>A property created by assignment or by a class field: all attributes true.\<close>

definition data_prop :: "jsval \<Rightarrow> descriptor" where
  "data_prop v = \<lparr>pvalue = v, writable = True, enumerable = True, configurable = True\<rparr>"

text \<open>A property created by the built-in \<^verbatim>\<open>Error\<close>: writable, configurable, not enumerable.\<close>

definition hidden_prop :: "jsval \<Rightarrow> descriptor" where
  "hidden_prop v = \<lparr>pvalue = v, writable = True, enumerable = False, configurable = True\<rparr>"

text \<open>The own property a field of the host's becomes.\<close>

definition base_prop :: "string \<times> jsval \<times> bool \<Rightarrow> string \<times> descriptor" where
  "base_prop f =
     (fst f, \<lparr>pvalue = fst (snd f), writable = True, enumerable = snd (snd f), configurable = True\<rparr>)"

text \<open>
  The data properties of \<^verbatim>\<open>Error.prototype\<close>: \<^verbatim>\<open>name\<close> is \<^verbatim>\<open>"Error"\<close> and \<^verbatim>\<open>message\<close> is the
  empty string. The methods of the built-in prototypes and the \<^verbatim>\<open>constructor\<close> property
  of a class prototype are writable data properties whose values are functions; an
  assignment treats them as it treats an absent key, and they are left out.
\<close>

definition Error_prototype_props :: "(string \<times> descriptor) list" where
  "Error_prototype_props =
     [(''name'', hidden_prop (VStr ''Error'')), (''message'', hidden_prop (VStr ''''))]"

text \<open>
  What a search up the prototype chain finds for a key: nothing, a data property (value
  and writability), an accessor of the caller's (what its getter returns, whether it has
  a setter), or the accessor \<^verbatim>\<open>__proto__\<close> of \<^verbatim>\<open>Object.prototype\<close>.
\<close>

datatype inherited =
    NotFound
  | FoundData jsval bool
  | FoundAccessor "jsval option" bool
  | ProtoAccessor

definition Object_prototype_lookup :: "string \<Rightarrow> inherited" where
  "Object_prototype_lookup k = (if k = ''__proto__'' then ProtoAccessor else NotFound)"

definition Error_prototype_lookup :: "string \<Rightarrow> inherited" where
  "Error_prototype_lookup k =
     (case map_of Error_prototype_props k of
        Some p \<Rightarrow> FoundData (pvalue p) (writable p)
      | None \<Rightarrow> Object_prototype_lookup k)"

text \<open>
  The search, starting at the object \<open>p\<close>. The prototype object of a class made here
  declares no data property, and its chain continues to \<^verbatim>\<open>Error.prototype\<close>.
\<close>

fun lookup_chain :: "string \<Rightarrow> proto \<Rightarrow> inherited" where
  "lookup_chain k NullPrototype = NotFound"
| "lookup_chain k ObjectPrototype = Object_prototype_lookup k"
| "lookup_chain k ErrorPrototype = Error_prototype_lookup k"
| "lookup_chain k (ClassPrototype c) = Error_prototype_lookup k"
| "lookup_chain k (PlainObject slots p) =
     (case map_of slots k of
        Some (Data v w) \<Rightarrow> FoundData v w
      | Some (Accessor g s) \<Rightarrow> FoundAccessor g s
      | None \<Rightarrow> lookup_chain k p)"

text \<open>
  \<^verbatim>\<open>new Error(msg)\<close> with a string message, run for \<^verbatim>\<open>new.target = nt\<close>: the new object
  owns the host's fields and a non-enumerable \<^verbatim>\<open>message\<close>.
\<close>

definition Error_construct :: "host \<Rightarrow> vclass \<Rightarrow> string \<Rightarrow> obj" where
  "Error_construct h nt msg =
     \<lparr>prototype_of = (if legacy_proto h then ErrorPrototype else ClassPrototype nt),
      own = AList.update ''message'' (hidden_prop (VStr msg)) (map base_prop (base_fields h))\<rparr>"

text \<open>
  Reading \<^verbatim>\<open>o.k\<close>: the own property, else what the chain finds. The getter of
  \<^verbatim>\<open>__proto__\<close> returns the prototype of \<open>o\<close>.
\<close>

definition get_prop :: "string \<Rightarrow> obj \<Rightarrow> jsval" where
  "get_prop k ob =
     (case map_of (own ob) k of
        Some p \<Rightarrow> pvalue p
      | None \<Rightarrow>
          (case lookup_chain k (prototype_of ob) of
             NotFound \<Rightarrow> VUndefined
           | FoundData v w \<Rightarrow> v
           | FoundAccessor g s \<Rightarrow> (case g of Some v \<Rightarrow> v | None \<Rightarrow> VUndefined)
           | ProtoAccessor \<Rightarrow> VObj (prototype_of ob)))"

text \<open>
  The assignment \<^verbatim>\<open>o.k = v\<close> in strict code (class bodies and modules are strict; the
  assignments of \<^verbatim>\<open>Object.assign\<close> throw likewise).
  \<^item> An own property takes the value and keeps its attributes if it is writable; if not,
    the assignment throws.
  \<^item> Otherwise the chain is searched. An inherited read-only data property, or an
    accessor without a setter, makes the assignment throw. An accessor with a setter
    runs the setter: the object gets no own property. The setter of \<^verbatim>\<open>__proto__\<close>
    replaces the prototype of \<open>o\<close> when \<open>v\<close> is an object or \<^verbatim>\<open>null\<close> and does nothing for
    any other value (the objects assigned to here are new and extensible, so the
    replacement succeeds).
  \<^item> In every other case a new own property is appended, all attributes true.
\<close>

definition set_prop :: "string \<Rightarrow> jsval \<Rightarrow> obj \<Rightarrow> error + obj" where
  "set_prop k v ob =
     (case map_of (own ob) k of
        Some p \<Rightarrow>
          if writable p then Inr (ob\<lparr>own := AList.update k (p\<lparr>pvalue := v\<rparr>) (own ob)\<rparr>)
          else Inl TypeError
      | None \<Rightarrow>
          (case lookup_chain k (prototype_of ob) of
             NotFound \<Rightarrow> Inr (ob\<lparr>own := AList.update k (data_prop v) (own ob)\<rparr>)
           | FoundData u w \<Rightarrow>
               if w then Inr (ob\<lparr>own := AList.update k (data_prop v) (own ob)\<rparr>)
               else Inl TypeError
           | FoundAccessor g s \<Rightarrow> if s then Inr ob else Inl TypeError
           | ProtoAccessor \<Rightarrow>
               (case v of
                  VObj p \<Rightarrow> Inr (ob\<lparr>prototype_of := p\<rparr>)
                | VNull \<Rightarrow> Inr (ob\<lparr>prototype_of := NullPrototype\<rparr>)
                | _ \<Rightarrow> Inr ob)))"

text \<open>
  A class field initialiser \<^verbatim>\<open>k = v\<close>: defines the own property, all attributes true
  (the properties present when it runs are configurable, so the definition succeeds).
\<close>

definition define_field :: "string \<Rightarrow> jsval \<Rightarrow> obj \<Rightarrow> obj" where
  "define_field k v ob = ob\<lparr>own := AList.update k (data_prop v) (own ob)\<rparr>"

definition setPrototypeOf :: "obj \<Rightarrow> proto \<Rightarrow> obj" where
  "setPrototypeOf ob p = ob\<lparr>prototype_of := p\<rparr>"

text \<open>
  \<^verbatim>\<open>Object.assign(target, source)\<close>: the own enumerable properties of the source, given
  here as the list of its keys and values (a plain object: reading them runs no code),
  are assigned one by one; a failing assignment stops the copy. A source may own a
  property named \<^verbatim>\<open>__proto__\<close> (an object literal with the computed key
  \<^verbatim>\<open>["__proto__"]\<close>, or the result of \<^verbatim>\<open>JSON.parse\<close>).
\<close>

type_synonym props = "(string \<times> jsval) list"

fun Object_assign :: "obj \<Rightarrow> props \<Rightarrow> error + obj" where
  "Object_assign ob [] = Inr ob"
| "Object_assign ob ((k, v) # ps) =
     (case set_prop k v ob of
        Inl e \<Rightarrow> Inl e
      | Inr ob' \<Rightarrow> Object_assign ob' ps)"

section \<open>The factory and the constructor it returns\<close>

text \<open>
  \<^verbatim>\<open>TaggedError(tag)\<close> evaluates a class expression and returns it: a fresh class closed
  over the tag. The body neither inspects the tag nor throws.
\<close>

definition TaggedError :: "string \<Rightarrow> realm \<Rightarrow> error + (vclass \<times> realm)" where
  "TaggedError tag r = Inr (Variant (next_id r) tag, r\<lparr>next_id := Suc (next_id r)\<rparr>)"

text \<open>\<^verbatim>\<open>class X extends c {}\<close>: a fresh class whose parent is \<open>c\<close>.\<close>

definition extends_class :: "vclass \<Rightarrow> realm \<Rightarrow> vclass \<times> realm" where
  "extends_class c r = (Subclass (next_id r) c, r\<lparr>next_id := Suc (next_id r)\<rparr>)"

text \<open>
  Running the constructor of class \<open>c\<close> for \<^verbatim>\<open>new.target = nt\<close>. For the class returned by
  the factory, in the order the host runs it:
  \<^enum> \<^verbatim>\<open>super(tag)\<close>;
  \<^enum> the field initialiser \<^verbatim>\<open>_tag = tag\<close>, which a derived class runs when \<^verbatim>\<open>super\<close> returns;
  \<^enum> \<^verbatim>\<open>Object.setPrototypeOf(this, new.target.prototype)\<close>;
  \<^enum> \<^verbatim>\<open>if (props) Object.assign(this, props)\<close> (an object is always truthy, \<^verbatim>\<open>undefined\<close> is not);
  \<^enum> \<^verbatim>\<open>this.name = tag\<close>.

  A subclass without a constructor forwards its arguments to its parent.
\<close>

fun construct :: "host \<Rightarrow> vclass \<Rightarrow> vclass \<Rightarrow> props option \<Rightarrow> error + obj" where
  "construct h nt (Variant n tag) ps =
     (let this = Error_construct h nt tag;
          this = define_field ''_tag'' (VStr tag) this;
          this = setPrototypeOf this (ClassPrototype nt)
      in case (case ps of None \<Rightarrow> Inr this | Some p \<Rightarrow> Object_assign this p) of
           Inl e \<Rightarrow> Inl e
         | Inr this \<Rightarrow> set_prop ''name'' (VStr tag) this)"
| "construct h nt (Subclass n c) ps = construct h nt c ps"

text \<open>\<^verbatim>\<open>new c(props)\<close>: the constructor of \<open>c\<close> runs with \<^verbatim>\<open>new.target = c\<close>.\<close>

definition new_instance :: "host \<Rightarrow> vclass \<Rightarrow> props option \<Rightarrow> error + obj" where
  "new_instance h c ps = construct h c c ps"

section \<open>Observations on instances\<close>

text \<open>The prototype chain, from an object upwards.\<close>

fun class_chain :: "vclass \<Rightarrow> proto list" where
  "class_chain (Variant n tag) = [ClassPrototype (Variant n tag), ErrorPrototype, ObjectPrototype]"
| "class_chain (Subclass n c) = ClassPrototype (Subclass n c) # class_chain c"

fun proto_chain :: "proto \<Rightarrow> proto list" where
  "proto_chain NullPrototype = []"
| "proto_chain ObjectPrototype = [ObjectPrototype]"
| "proto_chain ErrorPrototype = [ErrorPrototype, ObjectPrototype]"
| "proto_chain (ClassPrototype c) = class_chain c"
| "proto_chain (PlainObject slots p) = PlainObject slots p # proto_chain p"

text \<open>
  \<^verbatim>\<open>o instanceof C\<close>, where \<open>p\<close> is \<^verbatim>\<open>C.prototype\<close>: \<open>p\<close> occurs on the prototype chain of \<open>o\<close>.
  \<open>instance_of o ErrorPrototype\<close> is \<^verbatim>\<open>o instanceof Error\<close>.
\<close>

definition instance_of :: "obj \<Rightarrow> proto \<Rightarrow> bool" where
  "instance_of ob p = (p \<in> set (proto_chain (prototype_of ob)))"

text \<open>The value of \<^verbatim>\<open>(new ...) instanceof C\<close>, if the construction returns.\<close>

definition instanceof_result :: "error + obj \<Rightarrow> proto \<Rightarrow> error + bool" where
  "instanceof_result res p = map_sum id (\<lambda>ob. instance_of ob p) res"

text \<open>
  The names \<^verbatim>\<open>Object.getOwnPropertyNames(o)\<close> lists and the names \<^verbatim>\<open>Object.keys(o)\<close>
  lists, as sets: the order of the host's listing is not modelled.
\<close>

definition own_keys :: "obj \<Rightarrow> string set" where
  "own_keys ob = set (map fst (own ob))"

definition enumerable_keys :: "obj \<Rightarrow> string set" where
  "enumerable_keys ob =
     set (filter (\<lambda>k. case map_of (own ob) k of Some p \<Rightarrow> enumerable p | None \<Rightarrow> False)
            (map fst (own ob)))"

text \<open>The value of an own property, if the object has it.\<close>

definition own_value :: "string \<Rightarrow> obj \<Rightarrow> jsval option" where
  "own_value k ob = map_option pvalue (map_of (own ob) k)"

text \<open>\<^verbatim>\<open>Object.getOwnPropertyDescriptor(o, k)\<close>.\<close>

definition own_descriptor :: "string \<Rightarrow> obj \<Rightarrow> descriptor option" where
  "own_descriptor k ob = map_of (own ob) k"

text \<open>The tag a class was made for.\<close>

fun tag_of :: "vclass \<Rightarrow> string" where
  "tag_of (Variant n tag) = tag"
| "tag_of (Subclass n c) = tag_of c"

text \<open>
  The expression \<^verbatim>\<open>new (TaggedError(tag))(props)\<close>: the factory is called in realm \<open>r\<close>
  and the class it returns is instantiated at once.
\<close>

definition new_tagged :: "host \<Rightarrow> realm \<Rightarrow> string \<Rightarrow> props option \<Rightarrow> error + obj" where
  "new_tagged h r tag ps =
     (case TaggedError tag r of
        Inl e \<Rightarrow> Inl e
      | Inr (V, r') \<Rightarrow> new_instance h V ps)"

text \<open>Whether the argument of the constructor owns a property named \<^verbatim>\<open>__proto__\<close>.\<close>

definition has_proto_key :: "props option \<Rightarrow> bool" where
  "has_proto_key ps = (case ps of None \<Rightarrow> False | Some P \<Rightarrow> ''__proto__'' \<in> set (map fst P))"

section \<open>Auxiliary notions for the proofs\<close>

text \<open>
  The object an assignment yields when it finds an own writable property or creates a
  new one, and the same for a whole \<^verbatim>\<open>Object.assign\<close>; \<open>all_writable\<close> is an invariant
  of every object the constructor works on.
\<close>

definition assigned :: "string \<Rightarrow> jsval \<Rightarrow> obj \<Rightarrow> obj" where
  "assigned k v ob =
     ob\<lparr>own := AList.update k
       (case map_of (own ob) k of Some p \<Rightarrow> p\<lparr>pvalue := v\<rparr> | None \<Rightarrow> data_prop v) (own ob)\<rparr>"

fun assigned_all :: "props \<Rightarrow> obj \<Rightarrow> obj" where
  "assigned_all [] ob = ob"
| "assigned_all ((k, v) # ps) ob = assigned_all ps (assigned k v ob)"

definition all_writable :: "obj \<Rightarrow> bool" where
  "all_writable ob = list_all (\<lambda>kp. writable (snd kp)) (own ob)"

text \<open>The object the returned constructor works on when the property copy starts.\<close>

definition initial_object :: "host \<Rightarrow> vclass \<Rightarrow> string \<Rightarrow> obj" where
  "initial_object h nt tag =
     setPrototypeOf (define_field ''_tag'' (VStr tag) (Error_construct h nt tag)) (ClassPrototype nt)"

section \<open>What the constructor builds\<close>

lemma in_update_cases: "x \<in> set (AList.update k v al) \<Longrightarrow> x = (k, v) \<or> x \<in> set al"
  by (induction al) (auto split: if_splits)

lemma lookup_class_plain:
  "k \<noteq> ''__proto__'' \<Longrightarrow>
   lookup_chain k (ClassPrototype c) = NotFound \<or> (\<exists>u. lookup_chain k (ClassPrototype c) = FoundData u True)"
  by (simp add: Error_prototype_lookup_def Object_prototype_lookup_def Error_prototype_props_def
      hidden_prop_def)

lemma set_prop_own:
  "all_writable ob \<Longrightarrow> k \<in> set (map fst (own ob)) \<Longrightarrow> set_prop k v ob = Inr (assigned k v ob)"
  unfolding all_writable_def set_prop_def assigned_def
  by (auto simp: list_all_iff map_of_eq_None_iff split: option.splits dest!: map_of_SomeD)

lemma set_prop_ok:
  assumes "all_writable ob" and "prototype_of ob = ClassPrototype c" and "k \<noteq> ''__proto__''"
  shows "set_prop k v ob = Inr (assigned k v ob)"
proof (cases "k \<in> set (map fst (own ob))")
  case True
  with assms(1) show ?thesis by (rule set_prop_own)
next
  case False
  then have n: "map_of (own ob) k = None" by (simp add: map_of_eq_None_iff)
  from lookup_class_plain [OF assms(3), of c] show ?thesis
    by (auto simp: set_prop_def assigned_def n assms(2))
qed

lemma all_writable_assigned: "all_writable ob \<Longrightarrow> all_writable (assigned k v ob)"
  unfolding all_writable_def assigned_def list_all_iff
  by (auto simp: data_prop_def split: option.splits dest!: map_of_SomeD in_update_cases)

lemma prototype_assigned [simp]: "prototype_of (assigned k v ob) = prototype_of ob"
  by (simp add: assigned_def)

lemma prototype_assigned_all [simp]: "prototype_of (assigned_all ps ob) = prototype_of ob"
  by (induction ps arbitrary: ob) auto

lemma all_writable_assigned_all: "all_writable ob \<Longrightarrow> all_writable (assigned_all ps ob)"
  by (induction ps arbitrary: ob) (auto simp: all_writable_assigned)

lemma Object_assign_ok:
  "all_writable ob \<Longrightarrow> prototype_of ob = ClassPrototype c \<Longrightarrow> ''__proto__'' \<notin> set (map fst ps) \<Longrightarrow>
   Object_assign ob ps = Inr (assigned_all ps ob)"
proof (induction ps arbitrary: ob)
  case Nil
  then show ?case by simp
next
  case (Cons a ps)
  obtain k v where a: "a = (k, v)" by (cases a)
  from Cons.prems a have k: "k \<noteq> ''__proto__''" and rest: "''__proto__'' \<notin> set (map fst ps)"
    by auto
  have s: "set_prop k v ob = Inr (assigned k v ob)"
    using Cons.prems(1,2) k by (rule set_prop_ok)
  have "Object_assign (assigned k v ob) ps = Inr (assigned_all ps (assigned k v ob))"
    using Cons.prems(1,2) rest by (intro Cons.IH) (simp_all add: all_writable_assigned)
  with s show ?case by (simp add: a)
qed

lemma fst_base_prop [simp]: "fst (base_prop f) = fst f"
  by (simp add: base_prop_def)

lemma writable_base_prop [simp]: "writable (snd (base_prop f))"
  by (simp add: base_prop_def)

lemma all_writable_initial: "all_writable (initial_object h nt tag)"
  unfolding all_writable_def list_all_iff initial_object_def setPrototypeOf_def define_field_def
    Error_construct_def
  by (auto simp: hidden_prop_def data_prop_def base_prop_def dest!: in_update_cases)

lemma prototype_initial [simp]: "prototype_of (initial_object h nt tag) = ClassPrototype nt"
  by (simp add: initial_object_def setPrototypeOf_def)

lemma construct_Variant:
  assumes "\<not> has_proto_key ps"
  shows "construct h nt (Variant n tag) ps =
     Inr (assigned ''name'' (VStr tag)
       (case ps of None \<Rightarrow> initial_object h nt tag | Some p \<Rightarrow> assigned_all p (initial_object h nt tag)))"
proof (cases ps)
  case None
  have "set_prop ''name'' (VStr tag) (initial_object h nt tag) =
      Inr (assigned ''name'' (VStr tag) (initial_object h nt tag))"
    by (rule set_prop_ok [OF all_writable_initial prototype_initial]) simp
  with None show ?thesis
    by (simp add: initial_object_def)
next
  case (Some p)
  with assms have np: "''__proto__'' \<notin> set (map fst p)" by (simp add: has_proto_key_def)
  have a: "Object_assign (initial_object h nt tag) p = Inr (assigned_all p (initial_object h nt tag))"
    by (rule Object_assign_ok [OF all_writable_initial prototype_initial np])
  have "set_prop ''name'' (VStr tag) (assigned_all p (initial_object h nt tag)) =
      Inr (assigned ''name'' (VStr tag) (assigned_all p (initial_object h nt tag)))"
    by (rule set_prop_ok [OF all_writable_assigned_all [OF all_writable_initial]]) simp_all
  with a Some show ?thesis
    by (simp add: initial_object_def [symmetric])
qed

lemma own_value_assigned:
  "own_value k' (assigned k v ob) = (if k' = k then Some v else own_value k' ob)"
  by (auto simp: own_value_def assigned_def update_conv' data_prop_def split: option.splits)

lemma own_value_assigned_all:
  "distinct (map fst ps) \<Longrightarrow>
   own_value k (assigned_all ps ob) = (case map_of ps k of Some v \<Rightarrow> Some v | None \<Rightarrow> own_value k ob)"
proof (induction ps arbitrary: ob)
  case Nil
  then show ?case by simp
next
  case (Cons a ps)
  obtain k' v' where a: "a = (k', v')" by (cases a)
  from Cons.prems a have nin: "map_of ps k' = None"
    by (simp add: map_of_eq_None_iff)
  from Cons.prems have d: "distinct (map fst ps)" by simp
  show ?case
    using Cons.IH [OF d, of "assigned k' v' ob"] nin
    by (auto simp: a own_value_assigned split: option.splits)
qed

lemma own_keys_assigned: "own_keys (assigned k v ob) = insert k (own_keys ob)"
  by (auto simp: own_keys_def assigned_def dom_update)

lemma own_keys_assigned_all: "own_keys (assigned_all ps ob) = own_keys ob \<union> set (map fst ps)"
  by (induction ps arbitrary: ob) (force simp: own_keys_assigned)+

lemma own_keys_initial:
  "own_keys (initial_object h nt tag) = {''_tag'', ''message''} \<union> fst ` set (base_fields h)"
  by (auto simp: own_keys_def initial_object_def setPrototypeOf_def define_field_def
      Error_construct_def dom_update image_image)

lemma own_value_initial:
  "own_value k (initial_object h nt tag) =
     (if k = ''_tag'' then Some (VStr tag)
      else if k = ''message'' then Some (VStr tag)
      else map_option pvalue (map_of (map base_prop (base_fields h)) k))"
  by (simp add: own_value_def initial_object_def setPrototypeOf_def define_field_def
      Error_construct_def hidden_prop_def data_prop_def update_conv')

lemma get_prop_own: "own_value k ob = Some v \<Longrightarrow> get_prop k ob = v"
  by (auto simp: own_value_def get_prop_def)

lemma new_instance_Variant:
  "\<not> has_proto_key ps \<Longrightarrow>
   new_instance h (Variant n tag) ps =
     Inr (assigned ''name'' (VStr tag)
       (case ps of
          None \<Rightarrow> initial_object h (Variant n tag) tag
        | Some p \<Rightarrow> assigned_all p (initial_object h (Variant n tag) tag)))"
  by (simp add: new_instance_def construct_Variant del: construct.simps)

lemma new_tagged_eq:
  "\<not> has_proto_key ps \<Longrightarrow>
   new_tagged h r tag ps =
     Inr (assigned ''name'' (VStr tag)
       (case ps of
          None \<Rightarrow> initial_object h (Variant (next_id r) tag) tag
        | Some p \<Rightarrow> assigned_all p (initial_object h (Variant (next_id r) tag) tag)))"
  by (simp add: new_tagged_def TaggedError_def new_instance_Variant)

lemma no_props_plain [simp]: "\<not> has_proto_key None"
  by (simp add: has_proto_key_def)

lemma some_props_plain: "''__proto__'' \<notin> set (map fst P) \<Longrightarrow> \<not> has_proto_key (Some P)"
  by (simp add: has_proto_key_def)


text \<open>Whatever the properties, an assignment that returns keeps the own properties writable
  and loses none.\<close>

lemma set_prop_invariant:
  assumes "all_writable ob" and "set_prop k v ob = Inr ob'"
  shows "all_writable ob' \<and> own_keys ob \<subseteq> own_keys ob'"
proof -
  have a: "all_writable (assigned k v ob) \<and> own_keys ob \<subseteq> own_keys (assigned k v ob)"
    using assms(1) by (auto simp: all_writable_assigned own_keys_assigned)
  have b: "all_writable (ob\<lparr>prototype_of := p\<rparr>) \<and> own_keys ob \<subseteq> own_keys (ob\<lparr>prototype_of := p\<rparr>)" for p
    using assms(1) by (simp add: all_writable_def own_keys_def)
  have "ob' = assigned k v ob \<or> ob' = ob \<or> (\<exists>p. ob' = ob\<lparr>prototype_of := p\<rparr>)"
    using assms(2)
    by (auto simp: set_prop_def assigned_def split: option.splits if_splits inherited.splits jsval.splits)
  with a b assms(1) show ?thesis by auto
qed

lemma Object_assign_invariant:
  "all_writable ob \<Longrightarrow> Object_assign ob ps = Inr ob' \<Longrightarrow>
   all_writable ob' \<and> own_keys ob \<subseteq> own_keys ob'"
proof (induction ps arbitrary: ob)
  case Nil
  then show ?case by simp
next
  case (Cons a ps)
  obtain k v where a: "a = (k, v)" by (cases a)
  from Cons.prems(2) a obtain m where m: "set_prop k v ob = Inr m" and r: "Object_assign m ps = Inr ob'"
    by (auto split: sum.splits)
  from set_prop_invariant [OF Cons.prems(1) m] have 1: "all_writable m" and 2: "own_keys ob \<subseteq> own_keys m"
    by auto
  from Cons.IH [OF 1 r] 2 show ?case by auto
qed

lemma construct_invariant:
  assumes "construct h nt (Variant n tag) ps = Inr e"
  shows "all_writable e \<and> ''_tag'' \<in> own_keys e"
proof -
  let ?i = "initial_object h nt tag"
  have i: "all_writable ?i" "''_tag'' \<in> own_keys ?i"
    by (simp_all add: all_writable_initial own_keys_initial)
  have "(case (case ps of None \<Rightarrow> Inr ?i | Some p \<Rightarrow> Object_assign ?i p) of
      Inl x \<Rightarrow> Inl x | Inr this \<Rightarrow> set_prop ''name'' (VStr tag) this) = Inr e"
    using assms unfolding initial_object_def by (simp add: Let_def)
  then obtain m where m: "(case ps of None \<Rightarrow> Inr ?i | Some p \<Rightarrow> Object_assign ?i p) = Inr m"
    and s: "set_prop ''name'' (VStr tag) m = Inr e"
    by (auto split: sum.splits)
  have "all_writable m \<and> own_keys ?i \<subseteq> own_keys m"
  proof (cases ps)
    case None
    with m i show ?thesis by auto
  next
    case (Some p)
    with m have "Object_assign ?i p = Inr m" by simp
    from Object_assign_invariant [OF i(1) this] show ?thesis .
  qed
  with set_prop_invariant [OF _ s] i(2) show ?thesis by auto
qed

lemma writable_own:
  "all_writable ob \<Longrightarrow> k \<in> own_keys ob \<Longrightarrow>
   map_option writable (own_descriptor k ob) = Some True"
proof -
  assume w: "all_writable ob" and k: "k \<in> own_keys ob"
  from k obtain p where p: "map_of (own ob) k = Some p"
    by (auto simp: own_keys_def dest!: weak_map_of_SomeI)
  then have "(k, p) \<in> set (own ob)" by (rule map_of_SomeD)
  with w have "writable p" by (auto simp: all_writable_def list_all_iff)
  with p show ?thesis by (simp add: own_descriptor_def)
qed

lemma enumerable_keys_iff:
  "k \<in> enumerable_keys ob \<longleftrightarrow> (\<exists>p. map_of (own ob) k = Some p \<and> enumerable p)"
  by (auto simp: enumerable_keys_def split: option.splits dest: map_of_SomeD
      intro: rev_image_eqI)

lemma own_descriptor_assigned:
  "own_descriptor k' (assigned k v ob) =
     (if k' = k
      then Some (case own_descriptor k ob of Some p \<Rightarrow> p\<lparr>pvalue := v\<rparr> | None \<Rightarrow> data_prop v)
      else own_descriptor k' ob)"
  by (simp add: own_descriptor_def assigned_def update_conv')

lemma own_descriptor_initial:
  "own_descriptor k (initial_object h nt tag) =
     (if k = ''_tag'' then Some (data_prop (VStr tag))
      else if k = ''message'' then Some (hidden_prop (VStr tag))
      else map_of (map base_prop (base_fields h)) k)"
  by (simp add: own_descriptor_def initial_object_def setPrototypeOf_def define_field_def
      Error_construct_def update_conv')

lemma enumerable_own_descriptor:
  "k \<in> enumerable_keys ob \<longleftrightarrow> (\<exists>p. own_descriptor k ob = Some p \<and> enumerable p)"
  by (simp add: enumerable_keys_iff own_descriptor_def)

lemma enumerable_keys_own: "enumerable_keys ob \<subseteq> own_keys ob"
  by (auto simp: enumerable_keys_def own_keys_def)

lemma base_descriptor:
  "map_of (map base_prop bf) k = Some p \<Longrightarrow> \<exists>f \<in> set bf. fst f = k \<and> enumerable p = snd (snd f)"
  by (force simp: base_prop_def dest!: map_of_SomeD)

lemma base_descriptor_none:
  "k \<notin> fst ` set bf \<Longrightarrow> map_of (map base_prop bf) k = None"
  by (simp add: map_of_eq_None_iff image_image)

lemma no_props_fields:
  fixes h r tag
  defines "e \<equiv> assigned ''name'' (VStr tag) (initial_object h (Variant (next_id r) tag) tag)"
  shows no_props_result: "new_tagged h r tag None = Inr e"
    and no_props_own_keys: "own_keys e = {''_tag'', ''name'', ''message''} \<union> fst ` set (base_fields h)"
    and no_props_tag_enumerable: "''_tag'' \<in> enumerable_keys e"
    and no_props_message_hidden: "''message'' \<notin> enumerable_keys e"
    and no_props_name_enumerable: "''name'' \<notin> fst ` set (base_fields h) \<Longrightarrow> ''name'' \<in> enumerable_keys e"
    and no_props_other_enumerable:
      "k \<in> enumerable_keys e \<Longrightarrow> k \<notin> {''_tag'', ''name''} \<Longrightarrow>
       \<exists>f \<in> set (base_fields h). fst f = k \<and> snd (snd f)"
proof -
  show "new_tagged h r tag None = Inr e"
    by (simp add: e_def new_tagged_eq)
  show "own_keys e = {''_tag'', ''name'', ''message''} \<union> fst ` set (base_fields h)"
    by (auto simp: e_def own_keys_assigned own_keys_initial)
  show "''_tag'' \<in> enumerable_keys e"
    by (simp add: e_def enumerable_own_descriptor own_descriptor_assigned own_descriptor_initial
        data_prop_def)
  show "''message'' \<notin> enumerable_keys e"
    by (simp add: e_def enumerable_own_descriptor own_descriptor_assigned own_descriptor_initial
        hidden_prop_def)
  show "''name'' \<in> enumerable_keys e" if "''name'' \<notin> fst ` set (base_fields h)"
    using base_descriptor_none [OF that]
    by (simp add: e_def enumerable_own_descriptor own_descriptor_assigned own_descriptor_initial
        data_prop_def)
  show "\<exists>f \<in> set (base_fields h). fst f = k \<and> snd (snd f)"
    if "k \<in> enumerable_keys e" "k \<notin> {''_tag'', ''name''}"
  proof -
    from that obtain p where p: "own_descriptor k e = Some p" "enumerable p"
      by (auto simp: enumerable_own_descriptor)
    from that(2) p have "k \<noteq> ''message''"
      by (auto simp: e_def own_descriptor_assigned own_descriptor_initial hidden_prop_def)
    with that(2) p(1) have "map_of (map base_prop (base_fields h)) k = Some p"
      by (simp add: e_def own_descriptor_assigned own_descriptor_initial)
    from base_descriptor [OF this] p(2) show ?thesis by auto
  qed
qed

lemma new_tagged_props:
  assumes "distinct (map fst P)" and "''__proto__'' \<notin> set (map fst P)"
    and "new_tagged h r tag (Some P) = Inr e"
  shows own_value_new_tagged:
      "own_value k e =
         (if k = ''name'' then Some (VStr tag)
          else case map_of P k of
                 Some v \<Rightarrow> Some v
               | None \<Rightarrow> own_value k (initial_object h (Variant (next_id r) tag) tag))"
    and own_keys_new_tagged:
      "own_keys e = {''_tag'', ''name'', ''message''} \<union> fst ` set (base_fields h) \<union> set (map fst P)"
proof -
  from assms(3) have e: "e = assigned ''name'' (VStr tag)
      (assigned_all P (initial_object h (Variant (next_id r) tag) tag))"
    by (simp add: new_tagged_eq some_props_plain [OF assms(2)])
  show "own_value k e =
         (if k = ''name'' then Some (VStr tag)
          else case map_of P k of
                 Some v \<Rightarrow> Some v
               | None \<Rightarrow> own_value k (initial_object h (Variant (next_id r) tag) tag))"
    by (simp add: e own_value_assigned own_value_assigned_all [OF assms(1)])
  show "own_keys e = {''_tag'', ''name'', ''message''} \<union> fst ` set (base_fields h) \<union> set (map fst P)"
    unfolding e own_keys_assigned own_keys_assigned_all own_keys_initial by blast
qed

lemma new_tagged_returns:
  "\<not> has_proto_key ps \<Longrightarrow> \<exists>e. new_tagged h r tag ps = Inr e"
  by (simp add: new_tagged_eq)

text \<open>
  A class declared as \<^verbatim>\<open>class X extends TaggedError(tag) {}\<close>, the form the tests use:
  \<^verbatim>\<open>new.target\<close> is the subclass, and the instance is recognised by the subclass, by
  the class the factory returned and by \<^verbatim>\<open>Error\<close>.
\<close>

lemma subclass_instance:
  assumes "TaggedError tag r = Inr (V, r1)" and "extends_class V r1 = (X, r2)"
    and "\<not> has_proto_key ps"
  shows "\<exists>e. new_instance h X ps = Inr e \<and> instance_of e (ClassPrototype X) \<and>
           instance_of e (ClassPrototype V) \<and> instance_of e ErrorPrototype \<and>
           get_prop ''name'' e = VStr tag"
proof -
  from assms(1) have V: "V = Variant (next_id r) tag" by (simp add: TaggedError_def)
  from assms(2) have X: "X = Subclass (next_id r1) V" by (simp add: extends_class_def)
  let ?m = "case ps of None \<Rightarrow> initial_object h X tag | Some p \<Rightarrow> assigned_all p (initial_object h X tag)"
  let ?e = "assigned ''name'' (VStr tag) ?m"
  have e: "new_instance h X ps = Inr ?e"
    unfolding X V
    by (simp add: new_instance_def construct_Variant [OF assms(3)] del: construct.simps(1))
  have p: "prototype_of ?m = ClassPrototype X"
    by (cases ps) simp_all
  have i: "instance_of ?e (ClassPrototype X)" "instance_of ?e (ClassPrototype V)"
    "instance_of ?e ErrorPrototype"
    unfolding instance_of_def prototype_assigned p by (simp_all add: X V)
  have n: "get_prop ''name'' ?e = VStr tag"
    by (rule get_prop_own) (simp add: own_value_assigned)
  from e i n show ?thesis by blast
qed

lemmas model_defs = new_tagged_def TaggedError_def new_instance_def Error_construct_def
  define_field_def setPrototypeOf_def set_prop_def get_prop_def own_value_def
  Error_prototype_props_def hidden_prop_def data_prop_def base_prop_def
  Error_prototype_lookup_def Object_prototype_lookup_def instanceof_result_def instance_of_def

section \<open>The claims of the specification\<close>

subsection \<open>C1: the defaults of an instance built without properties\<close>

text \<open>
  Claim C1. For every tag \<open>T\<close>, in particular every non-empty one, calling the factory
  and then the returned constructor with no properties succeeds, and the instance reads
  \<^verbatim>\<open>_tag\<close>, \<^verbatim>\<open>name\<close> and \<^verbatim>\<open>message\<close> equal to \<open>T\<close> and is an instance of \<^verbatim>\<open>Error\<close>.
\<close>

theorem tagged_error_defaults:
  "\<exists>V r' e. TaggedError tag r = Inr (V, r') \<and> new_instance h V None = Inr e \<and>
     get_prop ''_tag'' e = VStr tag \<and> get_prop ''name'' e = VStr tag \<and>
     get_prop ''message'' e = VStr tag \<and> instance_of e ErrorPrototype"
proof -
  let ?V = "Variant (next_id r) tag"
  let ?e = "assigned ''name'' (VStr tag) (initial_object h ?V tag)"
  have 1: "TaggedError tag r = Inr (?V, r\<lparr>next_id := Suc (next_id r)\<rparr>)"
    by (simp add: TaggedError_def)
  have 2: "new_instance h ?V None = Inr ?e"
    by (simp add: new_instance_Variant)
  have 3: "get_prop ''_tag'' ?e = VStr tag" "get_prop ''name'' ?e = VStr tag"
    "get_prop ''message'' ?e = VStr tag"
    by (rule get_prop_own, simp add: own_value_assigned own_value_initial)+
  have 4: "instance_of ?e ErrorPrototype"
    by (simp add: instance_of_def)
  from 1 2 3 4 show ?thesis by blast
qed

text \<open>
  The test "should set the error message to the tag by default", on a down-levelled
  host that keeps the trace in an own \<^verbatim>\<open>stack\<close>.
\<close>

theorem tagged_error_defaults_witness:
  "\<exists>V r' e. TaggedError ''MyError'' \<lparr>next_id = 0\<rparr> = Inr (V, r') \<and>
     new_instance \<lparr>base_fields = [(''stack'', VStr ''Error: MyError'', False)], legacy_proto = True\<rparr>
       V None = Inr e \<and>
     get_prop ''_tag'' e = VStr ''MyError'' \<and> get_prop ''name'' e = VStr ''MyError'' \<and>
     get_prop ''message'' e = VStr ''MyError'' \<and> instance_of e ErrorPrototype"
  by (rule tagged_error_defaults)

subsection \<open>C2: the caller's properties on the instance\<close>

text \<open>
  Claim C2 says that every key of the property map ends up as an own field with the
  map's value. It fails for the key \<^verbatim>\<open>name\<close>: the constructor assigns \<^verbatim>\<open>this.name = tag\<close>
  after the copy, so a supplied \<^verbatim>\<open>name\<close> is replaced by the tag. It fails for an own
  key \<^verbatim>\<open>__proto__\<close> too: \<^verbatim>\<open>Object.assign\<close> assigns it through the setter inherited from
  \<^verbatim>\<open>Object.prototype\<close>, which creates no own field (and ignores a number).
\<close>

theorem props_not_all_kept:
  "map_sum id (own_value ''name'')
     (new_tagged \<lparr>base_fields = [], legacy_proto = False\<rparr> \<lparr>next_id = 0\<rparr> ''A''
        (Some [(''name'', VStr ''custom'')]))
   = Inr (Some (VStr ''A'')) \<and>
   map_sum id (own_value ''__proto__'')
     (new_tagged \<lparr>base_fields = [], legacy_proto = False\<rparr> \<lparr>next_id = 0\<rparr> ''A''
        (Some [(''__proto__'', VNum 5)]))
   = Inr None"
  by (simp add: model_defs)

text \<open>
  Claim C2, amended. For every tag \<open>T\<close> and every property map \<open>P\<close> (an object: its keys
  are distinct) that has no own key \<^verbatim>\<open>__proto__\<close>, construction succeeds; every key of
  \<open>P\<close> other than \<^verbatim>\<open>name\<close> is an own field holding \<open>P\<close>'s value; the own field \<^verbatim>\<open>name\<close>
  holds \<open>T\<close>; and the keys of \<open>P\<close> are own fields in addition to the defaults: \<^verbatim>\<open>_tag\<close>,
  \<^verbatim>\<open>name\<close>, \<^verbatim>\<open>message\<close> and what the base error contributed (the trace).
\<close>

theorem props_copied_except_name:
  assumes "distinct (map fst P)" and "''__proto__'' \<notin> set (map fst P)"
  shows "\<exists>e. new_tagged h r tag (Some P) = Inr e \<and>
     (\<forall>k v. (k, v) \<in> set P \<and> k \<noteq> ''name'' \<longrightarrow> own_value k e = Some v) \<and>
     own_value ''name'' e = Some (VStr tag) \<and>
     set (map fst P) \<subseteq> own_keys e \<and>
     {''_tag'', ''name'', ''message''} \<union> fst ` set (base_fields h) \<subseteq> own_keys e"
proof -
  obtain e where e: "new_tagged h r tag (Some P) = Inr e"
    using new_tagged_returns [OF some_props_plain [OF assms(2)]] by blast
  note v = own_value_new_tagged [OF assms e] and ks = own_keys_new_tagged [OF assms e]
  have a: "own_value k e = Some v" if "(k, v) \<in> set P" "k \<noteq> ''name''" for k v
    using that assms(1) by (simp add: v)
  have b: "own_value ''name'' e = Some (VStr tag)"
    by (simp add: v)
  have c: "set (map fst P) \<subseteq> own_keys e"
    unfolding ks by blast
  have d: "{''_tag'', ''name'', ''message''} \<union> fst ` set (base_fields h) \<subseteq> own_keys e"
    unfolding ks by blast
  show ?thesis
  proof (intro exI [of _ e] conjI allI impI)
    show "own_value k e = Some v" if "(k, v) \<in> set P \<and> k \<noteq> ''name''" for k v
      using that by (intro a) simp_all
  qed (rule e b c d)+
qed

text \<open>The scenario of the specification: \<^verbatim>\<open>HttpError\<close> with a status code and a URL.\<close>

theorem props_copied_except_name_witness:
  "(distinct (map fst [(''statusCode'', VNum 404), (''url'', VStr ''https://x'')]) \<and>
    ''__proto__'' \<notin> set (map fst [(''statusCode'', VNum 404), (''url'', VStr ''https://x'')])) \<and>
   (\<exists>e. new_tagged \<lparr>base_fields = [(''stack'', VStr ''Error: HttpError'', False)], legacy_proto = False\<rparr>
          \<lparr>next_id = 0\<rparr> ''HttpError''
          (Some [(''statusCode'', VNum 404), (''url'', VStr ''https://x'')]) = Inr e \<and>
        own_value ''statusCode'' e = Some (VNum 404) \<and>
        own_value ''url'' e = Some (VStr ''https://x'') \<and>
        own_value ''name'' e = Some (VStr ''HttpError''))"
proof -
  let ?P = "[(''statusCode'', VNum 404), (''url'', VStr ''https://x'')]"
  let ?h = "\<lparr>base_fields = [(''stack'', VStr ''Error: HttpError'', False)], legacy_proto = False\<rparr>"
  have d: "distinct (map fst ?P)" by simp
  have p: "''__proto__'' \<notin> set (map fst ?P)" by simp
  from props_copied_except_name [OF d p, of ?h "\<lparr>next_id = 0\<rparr>" "''HttpError''"] obtain e where
    e: "new_tagged ?h \<lparr>next_id = 0\<rparr> ''HttpError'' (Some ?P) = Inr e"
    and v: "\<forall>k v. (k, v) \<in> set ?P \<and> k \<noteq> ''name'' \<longrightarrow> own_value k e = Some v"
    and n: "own_value ''name'' e = Some (VStr ''HttpError'')"
    by (elim exE conjE)
  from v [rule_format, of "''statusCode''" "VNum 404"]
  have a: "own_value ''statusCode'' e = Some (VNum 404)" by simp
  from v [rule_format, of "''url''" "VStr ''https://x''"]
  have b: "own_value ''url'' e = Some (VStr ''https://x'')" by simp
  show ?thesis
    by (intro conjI exI [of _ e]) (rule d p e a b n)+
qed

subsection \<open>C3: instance relationships across variants\<close>




subsection \<open>C4: two calls with one tag\<close>




subsection \<open>C5: properties that collide with the reserved names\<close>

text \<open>
  Claim C5 says that for every property map a supplied property wins over the default
  for each of \<^verbatim>\<open>_tag\<close>, \<^verbatim>\<open>name\<close>, \<^verbatim>\<open>message\<close> and the trace. For \<^verbatim>\<open>name\<close> it does not:
  the assignment \<^verbatim>\<open>this.name = tag\<close> runs after the copy. And not every property map
  yields an instance: an own key \<^verbatim>\<open>__proto__\<close> holding a frozen object with a \<^verbatim>\<open>name\<close>
  becomes the prototype during the copy, and the assignment of \<^verbatim>\<open>name\<close> then throws.
\<close>

theorem reserved_name_not_overwritten:
  "map_sum id (get_prop ''name'')
     (new_tagged \<lparr>base_fields = [], legacy_proto = False\<rparr> \<lparr>next_id = 0\<rparr>
        ''NotFound'' (Some [(''resource'', VStr ''user''), (''name'', VStr ''Renamed'')]))
   = Inr (VStr ''NotFound'') \<and>
   new_tagged \<lparr>base_fields = [], legacy_proto = False\<rparr> \<lparr>next_id = 0\<rparr> ''NotFound''
     (Some [(''__proto__'', VObj (PlainObject [(''name'', Data (VStr ''Frozen'') False)] ObjectPrototype))])
   = Inl TypeError"
  by (simp add: model_defs)

text \<open>
  Claim C5, amended. For every tag and every property map that has no own key
  \<^verbatim>\<open>__proto__\<close>, a supplied \<^verbatim>\<open>_tag\<close>, \<^verbatim>\<open>message\<close> or \<^verbatim>\<open>stack\<close> (the trace) overwrites the
  default of that field, and \<^verbatim>\<open>name\<close> is the tag whether or not the map supplies a
  \<^verbatim>\<open>name\<close>.
\<close>

theorem reserved_collisions:
  assumes "distinct (map fst P)" and "''__proto__'' \<notin> set (map fst P)"
  shows "\<exists>e. new_tagged h r tag (Some P) = Inr e \<and>
     (\<forall>v. (''_tag'', v) \<in> set P \<longrightarrow> get_prop ''_tag'' e = v) \<and>
     (\<forall>v. (''message'', v) \<in> set P \<longrightarrow> get_prop ''message'' e = v) \<and>
     (\<forall>v. (''stack'', v) \<in> set P \<longrightarrow> get_prop ''stack'' e = v) \<and>
     get_prop ''name'' e = VStr tag"
proof -
  obtain e where e: "new_tagged h r tag (Some P) = Inr e"
    using new_tagged_returns [OF some_props_plain [OF assms(2)]] by blast
  note v = own_value_new_tagged [OF assms e]
  have a: "get_prop k e = v" if "(k, v) \<in> set P" "k \<noteq> ''name''" for k v
    using that assms(1) by (intro get_prop_own) (simp add: v)
  have b: "get_prop ''name'' e = VStr tag"
    by (rule get_prop_own) (simp add: v)
  show ?thesis
  proof (intro exI [of _ e] conjI allI impI)
    show "new_tagged h r tag (Some P) = Inr e" by (rule e)
    show "get_prop ''_tag'' e = x" if "(''_tag'', x) \<in> set P" for x
      using that by (rule a) simp
    show "get_prop ''message'' e = x" if "(''message'', x) \<in> set P" for x
      using that by (rule a) simp
    show "get_prop ''stack'' e = x" if "(''stack'', x) \<in> set P" for x
      using that by (rule a) simp
    show "get_prop ''name'' e = VStr tag" by (rule b)
  qed
qed

theorem reserved_collisions_witness:
  "(distinct (map fst [(''_tag'', VStr ''Other''), (''message'', VStr ''boom''),
                       (''stack'', VStr ''none''), (''name'', VStr ''Custom'')]) \<and>
    ''__proto__'' \<notin> set (map fst [(''_tag'', VStr ''Other''), (''message'', VStr ''boom''),
                       (''stack'', VStr ''none''), (''name'', VStr ''Custom'')])) \<and>
   (\<exists>e. new_tagged \<lparr>base_fields = [(''stack'', VStr ''Error: A'', False)], legacy_proto = False\<rparr>
          \<lparr>next_id = 0\<rparr> ''A''
          (Some [(''_tag'', VStr ''Other''), (''message'', VStr ''boom''),
                 (''stack'', VStr ''none''), (''name'', VStr ''Custom'')]) = Inr e \<and>
        get_prop ''_tag'' e = VStr ''Other'' \<and>
        get_prop ''message'' e = VStr ''boom'' \<and>
        get_prop ''stack'' e = VStr ''none'' \<and>
        get_prop ''name'' e = VStr ''A'')"
proof -
  let ?P = "[(''_tag'', VStr ''Other''), (''message'', VStr ''boom''),
             (''stack'', VStr ''none''), (''name'', VStr ''Custom'')]"
  let ?h = "\<lparr>base_fields = [(''stack'', VStr ''Error: A'', False)], legacy_proto = False\<rparr>"
  have d: "distinct (map fst ?P)" by simp
  have p: "''__proto__'' \<notin> set (map fst ?P)" by simp
  from reserved_collisions [OF d p, of ?h "\<lparr>next_id = 0\<rparr>" "''A''"] obtain e where
    e: "new_tagged ?h \<lparr>next_id = 0\<rparr> ''A'' (Some ?P) = Inr e"
    and t: "\<forall>v. (''_tag'', v) \<in> set ?P \<longrightarrow> get_prop ''_tag'' e = v"
    and m: "\<forall>v. (''message'', v) \<in> set ?P \<longrightarrow> get_prop ''message'' e = v"
    and s: "\<forall>v. (''stack'', v) \<in> set ?P \<longrightarrow> get_prop ''stack'' e = v"
    and n: "get_prop ''name'' e = VStr ''A''"
    by (elim exE conjE)
  from t [rule_format, of "VStr ''Other''"] have a: "get_prop ''_tag'' e = VStr ''Other''" by simp
  from m [rule_format, of "VStr ''boom''"] have b: "get_prop ''message'' e = VStr ''boom''" by simp
  from s [rule_format, of "VStr ''none''"] have c: "get_prop ''stack'' e = VStr ''none''" by simp
  show ?thesis
    by (intro conjI exI [of _ e]) (rule d p e a b c n)+
qed

subsection \<open>C6: the order of the construction steps\<close>

text \<open>
  Claim C6 says that the properties are copied first and the discriminant and the name
  are set afterwards, so that \<^verbatim>\<open>_tag\<close> and \<^verbatim>\<open>name\<close> equal the tag whatever the map
  supplies. The field initialiser \<^verbatim>\<open>_tag = tag\<close> runs when \<^verbatim>\<open>super(tag)\<close> returns, before
  the copy: a supplied \<^verbatim>\<open>_tag\<close> survives. And the assignment of \<^verbatim>\<open>name\<close> after the copy
  goes through the prototype an own key \<^verbatim>\<open>__proto__\<close> of the map installed: where that
  prototype has an accessor \<^verbatim>\<open>name\<close>, the instance gets no \<^verbatim>\<open>name\<close> of its own.
\<close>

theorem supplied_tag_survives:
  "map_sum id (get_prop ''_tag'')
     (new_tagged \<lparr>base_fields = [], legacy_proto = False\<rparr> \<lparr>next_id = 0\<rparr> ''A''
        (Some [(''_tag'', VStr ''B'')]))
   = Inr (VStr ''B'') \<and>
   map_sum id (get_prop ''name'')
     (new_tagged \<lparr>base_fields = [], legacy_proto = False\<rparr> \<lparr>next_id = 0\<rparr> ''A''
        (Some [(''__proto__'',
                VObj (PlainObject [(''name'', Accessor (Some (VStr ''Shadow'')) True)] ErrorPrototype))]))
   = Inr (VStr ''Shadow'')"
  by (simp add: model_defs)

text \<open>
  Claim C6, amended. The discriminant is set before the caller's properties are copied
  and the display name after. For every property map that has no own key \<^verbatim>\<open>__proto__\<close>:
  after construction \<^verbatim>\<open>name\<close> equals the tag even when the map supplies a \<^verbatim>\<open>name\<close>;
  \<^verbatim>\<open>_tag\<close> equals the tag when the map has no \<^verbatim>\<open>_tag\<close>, and the supplied value otherwise.
\<close>

theorem construction_order:
  assumes "distinct (map fst P)" and "''__proto__'' \<notin> set (map fst P)"
  shows "\<exists>e. new_tagged h r tag (Some P) = Inr e \<and>
     get_prop ''name'' e = VStr tag \<and>
     (''_tag'' \<notin> set (map fst P) \<longrightarrow> get_prop ''_tag'' e = VStr tag) \<and>
     (\<forall>v. (''_tag'', v) \<in> set P \<longrightarrow> get_prop ''_tag'' e = v)"
proof -
  obtain e where e: "new_tagged h r tag (Some P) = Inr e"
    using new_tagged_returns [OF some_props_plain [OF assms(2)]] by blast
  note v = own_value_new_tagged [OF assms e]
  have a: "get_prop ''name'' e = VStr tag"
    by (rule get_prop_own) (simp add: v)
  have b: "get_prop ''_tag'' e = VStr tag" if "''_tag'' \<notin> set (map fst P)"
  proof -
    from that have "map_of P ''_tag'' = None" by (simp add: map_of_eq_None_iff)
    then show ?thesis by (intro get_prop_own) (simp add: v own_value_initial)
  qed
  have c: "get_prop ''_tag'' e = x" if "(''_tag'', x) \<in> set P" for x
    using that assms(1) by (intro get_prop_own) (simp add: v)
  from e a b c show ?thesis by blast
qed

theorem construction_order_witness:
  "(distinct (map fst [(''code'', VNum 1), (''name'', VStr ''Custom'')]) \<and>
    ''__proto__'' \<notin> set (map fst [(''code'', VNum 1), (''name'', VStr ''Custom'')])) \<and>
   (\<exists>e. new_tagged \<lparr>base_fields = [(''stack'', VStr ''Error: A'', False)], legacy_proto = False\<rparr>
          \<lparr>next_id = 0\<rparr> ''A''
          (Some [(''code'', VNum 1), (''name'', VStr ''Custom'')]) = Inr e \<and>
        get_prop ''name'' e = VStr ''A'' \<and>
        get_prop ''_tag'' e = VStr ''A'')"
proof -
  let ?P = "[(''code'', VNum 1), (''name'', VStr ''Custom'')]"
  let ?h = "\<lparr>base_fields = [(''stack'', VStr ''Error: A'', False)], legacy_proto = False\<rparr>"
  have d: "distinct (map fst ?P)" by simp
  have p: "''__proto__'' \<notin> set (map fst ?P)" by simp
  from construction_order [OF d p, of ?h "\<lparr>next_id = 0\<rparr>" "''A''"] obtain e where
    e: "new_tagged ?h \<lparr>next_id = 0\<rparr> ''A'' (Some ?P) = Inr e"
    and n: "get_prop ''name'' e = VStr ''A''"
    and t: "''_tag'' \<notin> set (map fst ?P) \<longrightarrow> get_prop ''_tag'' e = VStr ''A''"
    by (elim exE conjE)
  from t have b: "get_prop ''_tag'' e = VStr ''A''" by simp
  show ?thesis
    by (intro conjI exI [of _ e]) (rule d p e n b)+
qed

subsection \<open>C7: the factory and a malformed tag\<close>

text \<open>
  Claim C7 says that the factory fails at once on an empty tag. The body of
  \<^verbatim>\<open>TaggedError\<close> has no check and no \<^verbatim>\<open>throw\<close>: called with the empty string it returns
  a constructor. (An absent tag is excluded by the parameter's type, \<^verbatim>\<open>Tag extends string\<close>.)
\<close>

theorem factory_accepts_empty_tag:
  "TaggedError '''' \<lparr>next_id = 0\<rparr> = Inr (Variant 0 '''', \<lparr>next_id = 1\<rparr>)"
  by (simp add: TaggedError_def)

text \<open>
  Claim C7, amended. The factory validates nothing: for every tag, the empty string
  included, it returns a constructor for that tag; and an instance built from the
  constructor for the empty tag carries the empty string as \<^verbatim>\<open>_tag\<close>, \<^verbatim>\<open>name\<close> and
  \<^verbatim>\<open>message\<close>.
\<close>

theorem factory_accepts_any_tag:
  "(\<exists>V r'. TaggedError tag r = Inr (V, r') \<and> tag_of V = tag) \<and>
   (\<exists>V r' e. TaggedError '''' r = Inr (V, r') \<and> new_instance h V None = Inr e \<and>
      get_prop ''_tag'' e = VStr '''' \<and> get_prop ''name'' e = VStr '''' \<and>
      get_prop ''message'' e = VStr '''')"
proof -
  let ?V = "Variant (next_id r) ''''"
  let ?e = "assigned ''name'' (VStr '''') (initial_object h ?V '''')"
  have "get_prop ''_tag'' ?e = VStr ''''" "get_prop ''name'' ?e = VStr ''''"
    "get_prop ''message'' ?e = VStr ''''"
    by (rule get_prop_own, simp add: own_value_assigned own_value_initial)+
  moreover have "new_instance h ?V None = Inr ?e"
    by (simp add: new_instance_Variant)
  ultimately show ?thesis
    by (simp add: TaggedError_def)
qed

subsection \<open>C8: the fields of an instance built without properties\<close>

text \<open>
  Claim C8 says that the own enumerable fields of such an instance are exactly \<^verbatim>\<open>_tag\<close>,
  \<^verbatim>\<open>name\<close>, \<^verbatim>\<open>message\<close> and the trace. The base \<^verbatim>\<open>Error\<close> creates \<^verbatim>\<open>message\<close> as a
  non-enumerable property, and so does an engine that keeps the trace in an own
  \<^verbatim>\<open>stack\<close>: \<^verbatim>\<open>Object.keys\<close> lists \<^verbatim>\<open>_tag\<close> and \<^verbatim>\<open>name\<close> only.
\<close>

theorem default_enumerable_keys:
  "map_sum id enumerable_keys
     (new_tagged \<lparr>base_fields = [(''stack'', VStr ''Error: Empty'', False)], legacy_proto = False\<rparr>
        \<lparr>next_id = 0\<rparr> ''Empty'' None)
   = Inr {''_tag'', ''name''}"
  by (simp add: model_defs enumerable_keys_def insert_commute)

text \<open>
  Claim C8, amended. For every tag, construction without properties never fails. The
  own fields of the instance are exactly \<^verbatim>\<open>_tag\<close>, \<^verbatim>\<open>name\<close>, \<^verbatim>\<open>message\<close> and the fields the
  base error mechanism contributes (the trace among them), with no stray field. Of
  these \<^verbatim>\<open>_tag\<close> is enumerable and \<^verbatim>\<open>message\<close> is not; no field is enumerable besides
  \<^verbatim>\<open>_tag\<close>, \<^verbatim>\<open>name\<close> and fields of the base mechanism; and on a host whose contributed
  fields are non-enumerable (and do not include a \<^verbatim>\<open>name\<close>) the own enumerable fields
  are exactly \<^verbatim>\<open>_tag\<close> and \<^verbatim>\<open>name\<close>.
\<close>

theorem default_own_fields:
  "\<exists>e. new_tagged h r tag None = Inr e \<and>
     own_keys e = {''_tag'', ''name'', ''message''} \<union> fst ` set (base_fields h) \<and>
     ''_tag'' \<in> enumerable_keys e \<and> ''message'' \<notin> enumerable_keys e \<and>
     enumerable_keys e \<subseteq> {''_tag'', ''name''} \<union> fst ` set (base_fields h) \<and>
     ((\<forall>f \<in> set (base_fields h). fst f \<noteq> ''name'' \<and> \<not> snd (snd f)) \<longrightarrow>
        enumerable_keys e = {''_tag'', ''name''})"
proof -
  let ?e = "assigned ''name'' (VStr tag) (initial_object h (Variant (next_id r) tag) tag)"
  note r = no_props_result [where h = h and r = r and tag = tag]
    and k = no_props_own_keys [where h = h and r = r and tag = tag]
    and t = no_props_tag_enumerable [where h = h and r = r and tag = tag]
    and m = no_props_message_hidden [where h = h and r = r and tag = tag]
    and n = no_props_name_enumerable [where h = h and r = r and tag = tag]
    and o = no_props_other_enumerable [where h = h and r = r and tag = tag]
  have s: "enumerable_keys ?e \<subseteq> {''_tag'', ''name''} \<union> fst ` set (base_fields h)"
    using o by force
  have x: "enumerable_keys ?e = {''_tag'', ''name''}"
    if "\<forall>f \<in> set (base_fields h). fst f \<noteq> ''name'' \<and> \<not> snd (snd f)"
  proof -
    from that have "''name'' \<notin> fst ` set (base_fields h)" by auto
    from n [OF this] t have "{''_tag'', ''name''} \<subseteq> enumerable_keys ?e" by simp
    moreover have "enumerable_keys ?e \<subseteq> {''_tag'', ''name''}"
      using o that by blast
    ultimately show ?thesis by (rule subset_antisym [rotated])
  qed
  show ?thesis
    by (intro exI [of _ ?e] conjI impI) (rule r k t m s x, assumption?)+
qed

text \<open>The scenario of the specification (tag \<^verbatim>\<open>Empty\<close>), on a host with an own \<^verbatim>\<open>stack\<close>.\<close>

theorem default_own_fields_witness:
  "\<exists>e. new_tagged \<lparr>base_fields = [(''stack'', VStr ''Error: Empty'', False)], legacy_proto = False\<rparr>
          \<lparr>next_id = 0\<rparr> ''Empty'' None = Inr e \<and>
        own_keys e = {''_tag'', ''name'', ''message'', ''stack''} \<and>
        enumerable_keys e = {''_tag'', ''name''}"
proof -
  let ?h = "\<lparr>base_fields = [(''stack'', VStr ''Error: Empty'', False)], legacy_proto = False\<rparr>"
  have b: "\<forall>f \<in> set (base_fields ?h). fst f \<noteq> ''name'' \<and> \<not> snd (snd f)" by simp
  from default_own_fields [of ?h "\<lparr>next_id = 0\<rparr>" "''Empty''"] obtain e where
    e: "new_tagged ?h \<lparr>next_id = 0\<rparr> ''Empty'' None = Inr e"
    and k: "own_keys e = {''_tag'', ''name'', ''message''} \<union> fst ` set (base_fields ?h)"
    and x: "(\<forall>f \<in> set (base_fields ?h). fst f \<noteq> ''name'' \<and> \<not> snd (snd f)) \<longrightarrow>
        enumerable_keys e = {''_tag'', ''name''}"
    by (elim exE conjE)
  from k have k': "own_keys e = {''_tag'', ''name'', ''message'', ''stack''}" by (simp add: insert_commute)
  from x b have x': "enumerable_keys e = {''_tag'', ''name''}" by (rule mp)
  show ?thesis
    by (intro conjI exI [of _ e]) (rule e k' x')+
qed

subsection \<open>C9: the discriminant can be reassigned\<close>

text \<open>
  Claim C9. On every instance the constructor returns, built with or without
  properties, the own property \<^verbatim>\<open>_tag\<close> is writable (what the test "should have a _tag
  property" reads from the descriptor), and an assignment to it succeeds and changes
  the value read back. Such instances exist: construction returns one whenever the
  argument has no own key \<^verbatim>\<open>__proto__\<close>.
\<close>

theorem tag_is_writable:
  "(\<not> has_proto_key ps \<longrightarrow> (\<exists>e. new_tagged h r tag ps = Inr e)) \<and>
   (\<forall>e. new_tagged h r tag ps = Inr e \<longrightarrow>
      map_option writable (own_descriptor ''_tag'' e) = Some True \<and>
      (\<exists>e'. set_prop ''_tag'' v e = Inr e' \<and> get_prop ''_tag'' e' = v))"
proof (intro conjI allI impI)
  show "\<exists>e. new_tagged h r tag ps = Inr e" if "\<not> has_proto_key ps"
    using that by (rule new_tagged_returns)
next
  fix e
  assume e: "new_tagged h r tag ps = Inr e"
  then have "construct h (Variant (next_id r) tag) (Variant (next_id r) tag) ps = Inr e"
    by (simp add: new_tagged_def TaggedError_def new_instance_def del: construct.simps)
  from construct_invariant [OF this] have w: "all_writable e" and k: "''_tag'' \<in> own_keys e"
    by auto
  show "map_option writable (own_descriptor ''_tag'' e) = Some True"
    using w k by (rule writable_own)
  have s: "set_prop ''_tag'' v e = Inr (assigned ''_tag'' v e)"
    using w k by (intro set_prop_own) (simp_all add: own_keys_def)
  have g: "get_prop ''_tag'' (assigned ''_tag'' v e) = v"
    by (rule get_prop_own) (simp add: own_value_assigned)
  from s g show "\<exists>e'. set_prop ''_tag'' v e = Inr e' \<and> get_prop ''_tag'' e' = v" by blast
qed

text \<open>The instance of the test, and an assignment to its \<^verbatim>\<open>_tag\<close>.\<close>

theorem tag_is_writable_witness:
  "\<not> has_proto_key None \<and>
   (\<exists>e e'. new_tagged \<lparr>base_fields = [(''stack'', VStr ''Error: TaggedErr'', False)], legacy_proto = False\<rparr>
             \<lparr>next_id = 0\<rparr> ''TaggedErr'' None = Inr e \<and>
     map_option writable (own_descriptor ''_tag'' e) = Some True \<and>
     set_prop ''_tag'' (VStr ''Changed'') e = Inr e' \<and> get_prop ''_tag'' e' = VStr ''Changed'')"
proof -
  let ?h = "\<lparr>base_fields = [(''stack'', VStr ''Error: TaggedErr'', False)], legacy_proto = False\<rparr>"
  note t = tag_is_writable [of None ?h "\<lparr>next_id = 0\<rparr>" "''TaggedErr''" "VStr ''Changed''"]
  have n: "\<not> has_proto_key None" by (simp add: has_proto_key_def)
  from t [THEN conjunct1, rule_format, OF n] obtain e where
    e: "new_tagged ?h \<lparr>next_id = 0\<rparr> ''TaggedErr'' None = Inr e" ..
  from t [THEN conjunct2, rule_format, OF e] obtain e' where
    w: "map_option writable (own_descriptor ''_tag'' e) = Some True"
    and s: "set_prop ''_tag'' (VStr ''Changed'') e = Inr e'"
    and g: "get_prop ''_tag'' e' = VStr ''Changed''"
    by (elim exE conjE)
  show ?thesis
    by (intro conjI exI [of _ e] exI [of _ e']) (rule n e w s g)+
qed

subsection \<open>C10: the outcome of a collision, field by field\<close>




end
